theory Spec2Isabelle
  imports Complex_Main
begin

section \<open>The transfer engine of src/main/aws/transfer-engine.ts\<close>

text \<open>
  The engine is a module with mutable globals (\<open>settings\<close>, \<open>queue\<close>, \<open>activeCount\<close>,
  \<open>abortControllers\<close>, \<open>lastEmitTime\<close>, \<open>progressCallback\<close>, \<open>jobIdCounter\<close>) that runs on
  a single-threaded event loop. It is embedded as a record of those globals, passed
  through every function and returned updated. Every synchronous piece of code (an
  exported function, a stream or progress handler, the tail of an executor after its
  last \<open>await\<close> together with the \<open>finally\<close> callback chained on it) is one function
  from state to state; the environment (the caller, the object store, the clock)
  chooses which piece runs next and with which data.

  Conventions:
  \<^item> \<open>Date.now()\<close> is an argument \<open>now\<close> of the piece of code that reads it; one
    synchronous piece reads the clock at one instant.
  \<^item> Numbers that hold sizes, counts and times are \<open>int\<close>; \<open>speed\<close>, a quotient, is an
    exact \<open>rat\<close> (the double rounding of the source is not modelled; nothing below
    depends on \<open>speed\<close>).
  \<^item> A job object is shared by reference between the queue array and the executors
    started on it. Ids are unique (\<open>generateId\<close> increments a counter for each), so an
    executor names its job by id. Jobs spliced out of the array stay alive for the
    executors that still hold them; they are kept in \<open>orphans\<close>.
  \<^item> \<open>progressCallback\<close> is a flag (null or set); the snapshots handed to the callback
    are appended to the log \<open>emitted\<close>.
  \<^item> \<open>basename\<close> (node:path) and \<open>statSync\<close> (node:fs) are parameters.
\<close>

subsection \<open>Data (src/shared/types.ts)\<close>

datatype TransferStatus = Pending | Active | Paused | Completed | Failed | Cancelled

datatype TransferDirection = Upload | Download

record TransferJob =
  job_id :: string
  direction :: TransferDirection
  localPath :: string
  bucket :: string
  key :: string
  fileSize :: int
  transferred :: int
  speed :: rat
  status :: TransferStatus
  error :: "string option"
  startedAt :: "int option"
  completedAt :: "int option"

record TransferSettings =
  partSizeMB :: int
  concurrentThreads :: int
  maxBandwidthKBps :: int
  verifyChecksum :: bool

text \<open>
  \<open>Partial<TransferSettings>\<close>: every field optional. \<open>None\<close> is a key that is absent.
  A key that is present with the value \<open>undefined\<close>, which the spread in
  \<open>setTransferSettings\<close> would copy over the setting, has no counterpart here; no
  property below runs \<open>setTransferSettings\<close>.
\<close>

record PartialSettings =
  p_partSizeMB :: "int option"
  p_concurrentThreads :: "int option"
  p_maxBandwidthKBps :: "int option"
  p_verifyChecksum :: "bool option"

text \<open>
  One call of \<open>executeUpload\<close> or \<open>executeDownload\<close> in flight: the job it was started
  on, which of the two it is, whether it has stored its AbortController in
  \<open>abortControllers\<close>, whether that controller has been aborted, the local variable
  \<open>downloaded\<close> of \<open>executeDownload\<close>, and whether the promise has settled.
\<close>

record Executor =
  jobRef :: string
  kind :: TransferDirection
  controllerSet :: bool
  aborted :: bool
  downloaded :: int
  settled :: bool

record engine =
  settings :: TransferSettings
  queue :: "TransferJob list"
  activeCount :: int
  abortControllers :: "string \<Rightarrow> nat option"
  lastEmitTime :: "string \<Rightarrow> int option"
  progressCallback :: bool
  jobIdCounter :: nat
  orphans :: "TransferJob list"
  executors :: "Executor list"
  emitted :: "TransferJob list"

definition MAX_HISTORY_SIZE :: nat where
  "MAX_HISTORY_SIZE = 200"

text \<open>The module's initial values (lines 10-26).\<close>

definition initial :: engine where
  "initial =
     \<lparr> settings = \<lparr> partSizeMB = 10, concurrentThreads = 4, maxBandwidthKBps = 0,
                    verifyChecksum = False \<rparr>,
       queue = [], activeCount = 0, abortControllers = (\<lambda>_. None),
       lastEmitTime = (\<lambda>_. None), progressCallback = False, jobIdCounter = 0,
       orphans = [], executors = [], emitted = [] \<rparr>"

subsection \<open>Helpers\<close>

text \<open>The test \<open>s === 'completed' || s === 'failed' || s === 'cancelled'\<close>.\<close>

definition isTerminal :: "TransferStatus \<Rightarrow> bool" where
  "isTerminal st = (st = Completed \<or> st = Failed \<or> st = Cancelled)"

text \<open>
  \<open>Array.prototype.find\<close> returns a reference to the first matching element; the
  model returns its position, and a write through the reference is an update there.
\<close>

fun findIndex :: "('a \<Rightarrow> bool) \<Rightarrow> 'a list \<Rightarrow> nat option" where
  "findIndex P [] = None"
| "findIndex P (x # xs) = (if P x then Some 0 else map_option Suc (findIndex P xs))"

text \<open>Decimal rendering of a number inside a template literal.\<close>

definition digit :: "nat \<Rightarrow> char" where
  "digit d = ''0123456789'' ! d"

fun decimal :: "nat \<Rightarrow> string" where
  "decimal n = (if n < 10 then [digit n] else decimal (n div 10) @ [digit (n mod 10)])"

declare decimal.simps [simp del]

definition showInt :: "int \<Rightarrow> string" where
  "showInt i = (if i < 0 then CHR ''-'' # decimal (nat (- i)) else decimal (nat i))"

text \<open>\<open>generateId\<close> (lines 27-29): \<open>`transfer-${Date.now()}-${++jobIdCounter}`\<close>.\<close>

definition generateId :: "int \<Rightarrow> engine \<Rightarrow> string \<times> engine" where
  "generateId now s =
     (let c = Suc (jobIdCounter s)
      in (''transfer-'' @ showInt now @ ''-'' @ decimal c, s\<lparr>jobIdCounter := c\<rparr>))"

subsection \<open>pruneQueue (lines 34-50)\<close>

text \<open>
  The loop walks the array from the front and splices out terminal jobs until
  \<open>toRemove\<close> of them are gone. \<open>removeOldest n q\<close> is the array after the loop and
  \<open>removedOldest n q\<close> the jobs spliced out, in order.
\<close>

fun removeOldest :: "nat \<Rightarrow> TransferJob list \<Rightarrow> TransferJob list" where
  "removeOldest 0 q = q"
| "removeOldest (Suc n) [] = []"
| "removeOldest (Suc n) (j # q) =
     (if isTerminal (status j) then removeOldest n q else j # removeOldest (Suc n) q)"

fun removedOldest :: "nat \<Rightarrow> TransferJob list \<Rightarrow> TransferJob list" where
  "removedOldest 0 q = []"
| "removedOldest (Suc n) [] = []"
| "removedOldest (Suc n) (j # q) =
     (if isTerminal (status j) then j # removedOldest n q else removedOldest (Suc n) q)"

definition pruneQueue :: "engine \<Rightarrow> engine" where
  "pruneQueue s =
     (let terminal = filter (\<lambda>j. isTerminal (status j)) (queue s)
      in if length terminal > MAX_HISTORY_SIZE
         then (let toRemove = length terminal - MAX_HISTORY_SIZE
               in s\<lparr>queue := removeOldest toRemove (queue s),
                     orphans := orphans s @ removedOldest toRemove (queue s)\<rparr>)
         else s)"

subsection \<open>Settings and subscription (lines 52-66)\<close>

definition setTransferSettings :: "PartialSettings \<Rightarrow> engine \<Rightarrow> engine" where
  "setTransferSettings p s =
     s\<lparr>settings :=
         \<lparr> partSizeMB = (case p_partSizeMB p of None \<Rightarrow> partSizeMB (settings s) | Some v \<Rightarrow> v),
           concurrentThreads =
             (case p_concurrentThreads p of None \<Rightarrow> concurrentThreads (settings s) | Some v \<Rightarrow> v),
           maxBandwidthKBps =
             (case p_maxBandwidthKBps p of None \<Rightarrow> maxBandwidthKBps (settings s) | Some v \<Rightarrow> v),
           verifyChecksum =
             (case p_verifyChecksum p of None \<Rightarrow> verifyChecksum (settings s) | Some v \<Rightarrow> v) \<rparr>\<rparr>"

definition getTransferSettings :: "engine \<Rightarrow> TransferSettings" where
  "getTransferSettings s = settings s"

definition setProgressCallback :: "engine \<Rightarrow> engine" where
  "setProgressCallback s = s\<lparr>progressCallback := True\<rparr>"

definition getQueue :: "engine \<Rightarrow> TransferJob list" where
  "getQueue s = queue s"

subsection \<open>emitProgress (lines 68-80)\<close>

text \<open>
  \<open>lastEmitTime.get(job.id) || 0\<close> is 0 for a missing entry. For a terminal status the
  entry is deleted and then, by the statement after the \<open>if\<close>, set again.
\<close>

definition emitProgress :: "int \<Rightarrow> TransferJob \<Rightarrow> engine \<Rightarrow> engine" where
  "emitProgress now job s =
     (if \<not> progressCallback s then s
      else if \<not> isTerminal (status job) then
        (let last = (case lastEmitTime s (job_id job) of None \<Rightarrow> 0 | Some t \<Rightarrow> t)
         in if now - last < 100 then s
            else s\<lparr>lastEmitTime := (lastEmitTime s)(job_id job \<mapsto> now),
                   emitted := emitted s @ [job]\<rparr>)
      else
        (let s1 = s\<lparr>lastEmitTime := (lastEmitTime s)(job_id job := None)\<rparr>
         in s1\<lparr>lastEmitTime := (lastEmitTime s1)(job_id job \<mapsto> now),
                emitted := emitted s1 @ [job]\<rparr>))"

subsection \<open>processQueue (lines 82-106)\<close>

text \<open>
  One round of the loop body up to the call of the executor: the first pending job
  becomes active, is stamped, counted and emitted, and an executor is started on it.
  The executor's first statement is an \<open>await\<close>, so nothing of it runs here.
\<close>

definition dispatch :: "int \<Rightarrow> nat \<Rightarrow> engine \<Rightarrow> engine" where
  "dispatch now i s =
     (let next = (queue s ! i)\<lparr>status := Active, startedAt := Some now\<rparr>;
          s1 = s\<lparr>queue := (queue s)[i := next], activeCount := activeCount s + 1\<rparr>;
          s2 = emitProgress now next s1
      in s2\<lparr>executors := executors s2 @
              [\<lparr> jobRef = job_id next, kind = direction next, controllerSet = False,
                  aborted = False, downloaded = 0, settled = False \<rparr>]\<rparr>)"

text \<open>
  The \<open>while\<close> loop. Each round turns a pending job into an active one, so the number
  of pending jobs in the array bounds the number of rounds.
\<close>

function processQueue :: "int \<Rightarrow> engine \<Rightarrow> engine" where
  "processQueue now s =
     (if activeCount s < concurrentThreads (settings s) then
        (case findIndex (\<lambda>j. status j = Pending) (queue s) of
           None \<Rightarrow> s
         | Some i \<Rightarrow> processQueue now (dispatch now i s))
      else s)"
  by pat_completeness auto
termination
proof (relation "measure (\<lambda>(now, s). length (filter (\<lambda>j. status j = Pending) (queue s)))")
  show "wf (measure (\<lambda>(now, s). length (filter (\<lambda>j. status j = Pending) (queue s))))"
    by simp
next
  fix now :: int and s :: engine and i :: nat
  assume found: "findIndex (\<lambda>j. status j = Pending) (queue s) = Some i"
  have at: "findIndex P xs = Some k \<Longrightarrow> k < length xs \<and> P (xs ! k)"
    for P :: "TransferJob \<Rightarrow> bool" and xs k
  proof (induction xs arbitrary: k)
    case Nil
    then show ?case by simp
  next
    case (Cons x xs)
    then show ?case by (cases "P x") auto
  qed
  have fewer: "k < length xs \<Longrightarrow> P (xs ! k) \<Longrightarrow> \<not> P y \<Longrightarrow>
      length (filter P (xs[k := y])) < length (filter P xs)"
    for P :: "TransferJob \<Rightarrow> bool" and xs k y
  proof (induction xs arbitrary: k)
    case Nil
    then show ?case by simp
  next
    case (Cons x xs)
    show ?case
    proof (cases k)
      case 0
      with Cons.prems show ?thesis by simp
    next
      case (Suc m)
      with Cons.prems Cons.IH [of m] show ?thesis by simp
    qed
  qed
  have q: "queue (dispatch now i s)
             = (queue s)[i := (queue s ! i)\<lparr>status := Active, startedAt := Some now\<rparr>]"
    by (simp add: dispatch_def emitProgress_def Let_def)
  from found have "i < length (queue s)" and "status (queue s ! i) = Pending"
    using at [of "\<lambda>j. status j = Pending" "queue s" i] by simp_all
  then have "length (filter (\<lambda>j. status j = Pending) (queue (dispatch now i s)))
               < length (filter (\<lambda>j. status j = Pending) (queue s))"
    by (simp add: q fewer)
  then show "((now, dispatch now i s), (now, s))
               \<in> measure (\<lambda>(now, s). length (filter (\<lambda>j. status j = Pending) (queue s)))"
    by simp
qed

declare processQueue.simps [simp del]

subsection \<open>Enqueueing (lines 212-264)\<close>

text \<open>
  \<open>statSync\<close> returns the size, or \<open>None\<close> where the source's call throws; the \<open>catch\<close>
  leaves \<open>fileSize\<close> at 0. The first function is the code up to and including
  \<open>queue.push(job)\<close>; the second adds the emission and the dispatch. The value returned
  is a reference to the pushed object, which sits at the end of the array when the
  call returns (nothing is spliced in between), so it is read there.
\<close>

definition enqueueUpload_push ::
  "(string \<Rightarrow> string) \<Rightarrow> (string \<Rightarrow> int option) \<Rightarrow> int \<Rightarrow> string \<Rightarrow> string \<Rightarrow> string
     \<Rightarrow> engine \<Rightarrow> TransferJob \<times> engine" where
  "enqueueUpload_push basename statSync now localPath' bucket' prefix s =
     (let fileName = basename localPath';
          fileSize' = (case statSync localPath' of None \<Rightarrow> 0 | Some sz \<Rightarrow> sz);
          key' = (if prefix \<noteq> [] then prefix @ fileName else fileName);
          (newId, s1) = generateId now s;
          job = \<lparr> job_id = newId, direction = Upload, localPath = localPath',
                  bucket = bucket', key = key', fileSize = fileSize', transferred = 0,
                  speed = 0, status = Pending, error = None, startedAt = None,
                  completedAt = None \<rparr>
      in (job, s1\<lparr>queue := queue s1 @ [job]\<rparr>))"

definition enqueueUpload ::
  "(string \<Rightarrow> string) \<Rightarrow> (string \<Rightarrow> int option) \<Rightarrow> int \<Rightarrow> string \<Rightarrow> string \<Rightarrow> string
     \<Rightarrow> engine \<Rightarrow> TransferJob \<times> engine" where
  "enqueueUpload basename statSync now localPath' bucket' prefix s =
     (let (job, s2) = enqueueUpload_push basename statSync now localPath' bucket' prefix s;
          s3 = emitProgress now job s2;
          s4 = processQueue now s3
      in (last (queue s4), s4))"

definition enqueueDownload_push ::
  "int \<Rightarrow> string \<Rightarrow> string \<Rightarrow> string \<Rightarrow> int \<Rightarrow> engine \<Rightarrow> TransferJob \<times> engine" where
  "enqueueDownload_push now bucket' key' localPath' fileSize' s =
     (let (newId, s1) = generateId now s;
          job = \<lparr> job_id = newId, direction = Download, localPath = localPath',
                  bucket = bucket', key = key', fileSize = fileSize', transferred = 0,
                  speed = 0, status = Pending, error = None, startedAt = None,
                  completedAt = None \<rparr>
      in (job, s1\<lparr>queue := queue s1 @ [job]\<rparr>))"

definition enqueueDownload ::
  "int \<Rightarrow> string \<Rightarrow> string \<Rightarrow> string \<Rightarrow> int \<Rightarrow> engine \<Rightarrow> TransferJob \<times> engine" where
  "enqueueDownload now bucket' key' localPath' fileSize' s =
     (let (job, s2) = enqueueDownload_push now bucket' key' localPath' fileSize' s;
          s3 = emitProgress now job s2;
          s4 = processQueue now s3
      in (last (queue s4), s4))"

subsection \<open>Cancel, pause, resume, clear (lines 266-306)\<close>

text \<open>
  \<open>controller.abort()\<close> followed by \<open>abortControllers.delete(jobId)\<close>, when the map
  holds a controller for the id. The controller belongs to the executor that stored
  it; aborting it is recorded there.
\<close>

definition abortController :: "string \<Rightarrow> engine \<Rightarrow> engine" where
  "abortController jobId s =
     (case abortControllers s jobId of
        None \<Rightarrow> s
      | Some e \<Rightarrow>
          s\<lparr>executors := (executors s)[e := (executors s ! e)\<lparr>aborted := True\<rparr>],
            abortControllers := (abortControllers s)(jobId := None)\<rparr>)"

definition cancelTransfer :: "int \<Rightarrow> string \<Rightarrow> engine \<Rightarrow> engine" where
  "cancelTransfer now jobId s =
     (case findIndex (\<lambda>j. job_id j = jobId) (queue s) of
        None \<Rightarrow> s
      | Some i \<Rightarrow>
          (let job = (queue s ! i)\<lparr>status := Cancelled\<rparr>;
               s1 = s\<lparr>queue := (queue s)[i := job]\<rparr>;
               s2 = abortController jobId s1
           in emitProgress now job s2))"

definition pauseTransfer :: "int \<Rightarrow> string \<Rightarrow> engine \<Rightarrow> engine" where
  "pauseTransfer now jobId s =
     (case findIndex (\<lambda>j. job_id j = jobId) (queue s) of
        None \<Rightarrow> s
      | Some i \<Rightarrow>
          if status (queue s ! i) \<noteq> Active then s
          else
            (let job = (queue s ! i)\<lparr>status := Paused\<rparr>;
                 s1 = s\<lparr>queue := (queue s)[i := job]\<rparr>;
                 s2 = abortController jobId s1;
                 s3 = s2\<lparr>activeCount := activeCount s2 - 1\<rparr>
             in emitProgress now job s3))"

definition resumeTransfer :: "int \<Rightarrow> string \<Rightarrow> engine \<Rightarrow> engine" where
  "resumeTransfer now jobId s =
     (case findIndex (\<lambda>j. job_id j = jobId) (queue s) of
        None \<Rightarrow> s
      | Some i \<Rightarrow>
          if status (queue s ! i) \<noteq> Paused then s
          else
            (let job = (queue s ! i)\<lparr>status := Pending, transferred := 0\<rparr>;
                 s1 = s\<lparr>queue := (queue s)[i := job]\<rparr>;
                 s2 = emitProgress now job s1
             in processQueue now s2))"

definition clearCompleted :: "engine \<Rightarrow> engine" where
  "clearCompleted s =
     s\<lparr>queue := filter (\<lambda>j. \<not> isTerminal (status j)) (queue s),
       orphans := orphans s @ filter (\<lambda>j. isTerminal (status j)) (queue s)\<rparr>"

subsection \<open>The executors (lines 108-210)\<close>

text \<open>
  An executor holds a reference to its job, which may since have been spliced out of
  the array: it is looked up by id in the array first, then among the orphans.
\<close>

datatype place = InQueue nat | InOrphans nat

definition locate :: "string \<Rightarrow> engine \<Rightarrow> place option" where
  "locate jobId s =
     (case findIndex (\<lambda>j. job_id j = jobId) (queue s) of
        Some i \<Rightarrow> Some (InQueue i)
      | None \<Rightarrow> map_option InOrphans (findIndex (\<lambda>j. job_id j = jobId) (orphans s)))"

fun getJob :: "place \<Rightarrow> engine \<Rightarrow> TransferJob" where
  "getJob (InQueue i) s = queue s ! i"
| "getJob (InOrphans i) s = orphans s ! i"

fun putJob :: "place \<Rightarrow> TransferJob \<Rightarrow> engine \<Rightarrow> engine" where
  "putJob (InQueue i) job s = s\<lparr>queue := (queue s)[i := job]\<rparr>"
| "putJob (InOrphans i) job s = s\<lparr>orphans := (orphans s)[i := job]\<rparr>"

text \<open>An executor that was started and whose promise has not settled.\<close>

definition running :: "nat \<Rightarrow> engine \<Rightarrow> bool" where
  "running e s = (e < length (executors s) \<and> \<not> settled (executors s ! e))"

text \<open>
  Lines 110-113 and 160-163: after \<open>getBucketRegion\<close> has resolved the executor
  creates its AbortController and stores it under the job's id.
\<close>

definition storeController :: "nat \<Rightarrow> engine \<Rightarrow> engine" where
  "storeController e s =
     (if running e s \<and> \<not> controllerSet (executors s ! e) then
        s\<lparr>abortControllers := (abortControllers s)(jobRef (executors s ! e) \<mapsto> e),
          executors := (executors s)[e := (executors s ! e)\<lparr>controllerSet := True\<rparr>]\<rparr>
      else s)"

text \<open>
  \<open>(Date.now() - (job.startedAt || Date.now())) / 1000\<close> and the speed computed from
  it (lines 133-135 and 185-186).
\<close>

definition elapsed :: "int \<Rightarrow> TransferJob \<Rightarrow> rat" where
  "elapsed now job =
     of_int (now - (case startedAt job of
                      None \<Rightarrow> now
                    | Some t \<Rightarrow> if t = 0 then now else t)) / 1000"

definition speedOf :: "int \<Rightarrow> TransferJob \<Rightarrow> int \<Rightarrow> rat" where
  "speedOf now job n = (if elapsed now job > 0 then of_int n / elapsed now job else 0)"

text \<open>The \<open>httpUploadProgress\<close> handler (lines 130-137), called with \<open>progress.loaded\<close>.\<close>

definition httpUploadProgress :: "int \<Rightarrow> nat \<Rightarrow> int \<Rightarrow> engine \<Rightarrow> engine" where
  "httpUploadProgress now e loaded s =
     (if \<not> running e s then s
      else case locate (jobRef (executors s ! e)) s of
        None \<Rightarrow> s
      | Some p \<Rightarrow>
          if status (getJob p s) = Cancelled then s
          else
            (let job = (getJob p s)\<lparr>transferred := loaded,
                                      speed := speedOf now (getJob p s) loaded\<rparr>
             in emitProgress now job (putJob p job s)))"

text \<open>
  The \<open>data\<close> handler of the download body (lines 177-188), called with
  \<open>chunk.length\<close>. On a cancelled job it destroys the two streams and returns.
\<close>

definition onData :: "int \<Rightarrow> nat \<Rightarrow> int \<Rightarrow> engine \<Rightarrow> engine" where
  "onData now e len s =
     (if \<not> running e s then s
      else case locate (jobRef (executors s ! e)) s of
        None \<Rightarrow> s
      | Some p \<Rightarrow>
          if status (getJob p s) = Cancelled then s
          else
            (let d = downloaded (executors s ! e) + len;
                 s1 = s\<lparr>executors := (executors s)[e := (executors s ! e)\<lparr>downloaded := d\<rparr>]\<rparr>;
                 job = (getJob p s1)\<lparr>transferred := d, speed := speedOf now (getJob p s1) d\<rparr>
             in emitProgress now job (putJob p job s1)))"

text \<open>
  The end of \<open>executeUpload\<close> (lines 139-155). The outcome is \<open>None\<close> when the \<open>try\<close>
  block ran to its end (\<open>upload.done()\<close> resolved) and \<open>Some m\<close> when something in it
  threw an error whose \<open>message\<close> is \<open>m\<close> (empty for a missing message).
\<close>

definition executeUpload_end :: "int \<Rightarrow> nat \<Rightarrow> string option \<Rightarrow> engine \<Rightarrow> engine" where
  "executeUpload_end now e outcome s =
     (case locate (jobRef (executors s ! e)) s of
        None \<Rightarrow> s
      | Some p \<Rightarrow>
          (let s1 =
             (case outcome of
                None \<Rightarrow>
                  if status (getJob p s) \<noteq> Cancelled then
                    (let job = (getJob p s)\<lparr>status := Completed,
                                              transferred := fileSize (getJob p s),
                                              completedAt := Some now\<rparr>
                     in emitProgress now job (putJob p job s))
                  else s
              | Some m \<Rightarrow>
                  if status (getJob p s) \<noteq> Cancelled then
                    (let job = (getJob p s)\<lparr>status := Failed,
                                 error := Some (if m \<noteq> [] then m else ''Upload failed'')\<rparr>
                     in emitProgress now job (putJob p job s))
                  else s)
           in s1\<lparr>abortControllers := (abortControllers s1)(jobRef (executors s ! e) := None)\<rparr>))"

text \<open>The end of \<open>executeDownload\<close> (lines 196-209).\<close>

definition executeDownload_end :: "int \<Rightarrow> nat \<Rightarrow> string option \<Rightarrow> engine \<Rightarrow> engine" where
  "executeDownload_end now e outcome s =
     (case locate (jobRef (executors s ! e)) s of
        None \<Rightarrow> s
      | Some p \<Rightarrow>
          (let s1 =
             (case outcome of
                None \<Rightarrow>
                  if status (getJob p s) \<noteq> Cancelled then
                    (let job = (getJob p s)\<lparr>status := Completed, completedAt := Some now\<rparr>
                     in emitProgress now job (putJob p job s))
                  else s
              | Some m \<Rightarrow>
                  if status (getJob p s) \<noteq> Cancelled then
                    (let job = (getJob p s)\<lparr>status := Failed,
                                 error := Some (if m \<noteq> [] then m else ''Download failed'')\<rparr>
                     in emitProgress now job (putJob p job s))
                  else s)
           in s1\<lparr>abortControllers := (abortControllers s1)(jobRef (executors s ! e) := None)\<rparr>))"

text \<open>
  The promise of executor \<open>e\<close> settles: the end of the executor runs, then the
  \<open>finally\<close> callback that \<open>processQueue\<close> chained on it (lines 93-97 and 99-103).
\<close>

definition settle :: "int \<Rightarrow> nat \<Rightarrow> string option \<Rightarrow> engine \<Rightarrow> engine" where
  "settle now e outcome s =
     (if \<not> running e s then s
      else
        (let s1 = (if kind (executors s ! e) = Upload then executeUpload_end now e outcome s
                   else executeDownload_end now e outcome s);
             s2 = s1\<lparr>executors := (executors s1)[e := (executors s1 ! e)\<lparr>settled := True\<rparr>]\<rparr>;
             s3 = s2\<lparr>activeCount := activeCount s2 - 1\<rparr>;
             s4 = pruneQueue s3
         in processQueue now s4))"

subsection \<open>Runs of the engine\<close>

text \<open>
  What can happen next: a call of an exported function, or an event of a running
  executor (named by the order in which executors were started, from 0).
\<close>

datatype event =
    EnqueueUpload string string string
  | EnqueueDownload string string string int
  | CancelTransfer string
  | PauseTransfer string
  | ResumeTransfer string
  | ClearCompleted
  | SetTransferSettings PartialSettings
  | SetProgressCallback
  | StoreController nat
  | HttpUploadProgress nat int
  | OnData nat int
  | Settle nat "string option"

fun step ::
  "(string \<Rightarrow> string) \<Rightarrow> (string \<Rightarrow> int option) \<Rightarrow> engine \<Rightarrow> int \<times> event \<Rightarrow> engine" where
  "step bn st s (now, EnqueueUpload lp b pre) = snd (enqueueUpload bn st now lp b pre s)"
| "step bn st s (now, EnqueueDownload b k lp sz) = snd (enqueueDownload now b k lp sz s)"
| "step bn st s (now, CancelTransfer i) = cancelTransfer now i s"
| "step bn st s (now, PauseTransfer i) = pauseTransfer now i s"
| "step bn st s (now, ResumeTransfer i) = resumeTransfer now i s"
| "step bn st s (now, ClearCompleted) = clearCompleted s"
| "step bn st s (now, SetTransferSettings p) = setTransferSettings p s"
| "step bn st s (now, SetProgressCallback) = setProgressCallback s"
| "step bn st s (now, StoreController e) = storeController e s"
| "step bn st s (now, HttpUploadProgress e n) = httpUploadProgress now e n s"
| "step bn st s (now, OnData e n) = onData now e n s"
| "step bn st s (now, Settle e r) = settle now e r s"

definition run ::
  "(string \<Rightarrow> string) \<Rightarrow> (string \<Rightarrow> int option) \<Rightarrow> (int \<times> event) list \<Rightarrow> engine" where
  "run bn st evs = foldl (step bn st) initial evs"

text \<open>The measures the properties below are about.\<close>

definition activeJobs :: "engine \<Rightarrow> nat" where
  "activeJobs s = length (filter (\<lambda>j. status j = Active) (queue s))"

definition terminalJobs :: "engine \<Rightarrow> nat" where
  "terminalJobs s = length (filter (\<lambda>j. isTerminal (status j)) (queue s))"

definition pendingJobs :: "engine \<Rightarrow> nat" where
  "pendingJobs s = length (filter (\<lambda>j. status j = Pending) (queue s))"

text \<open>
  The effect of one run of the loop of \<open>processQueue\<close> on the array, in closed form:
  with \<open>k\<close> free slots, the first \<open>k\<close> pending jobs, in array order, become active.
  It is proved equal to the loop below (\<open>queue_processQueue\<close>).
\<close>

fun promote :: "int \<Rightarrow> nat \<Rightarrow> TransferJob list \<Rightarrow> TransferJob list" where
  "promote now 0 q = q"
| "promote now (Suc k) [] = []"
| "promote now (Suc k) (j # q) =
     (if status j = Pending then j\<lparr>status := Active, startedAt := Some now\<rparr> # promote now k q
      else j # promote now (Suc k) q)"

definition freeSlots :: "engine \<Rightarrow> nat" where
  "freeSlots s = nat (concurrentThreads (settings s) - activeCount s)"

text \<open>
  \<open>path.posix.basename\<close> of node, for concrete runs: trailing slashes are dropped and
  the part after the last remaining slash is returned.
\<close>

definition posix_basename :: "string \<Rightarrow> string" where
  "posix_basename p =
     rev (takeWhile (\<lambda>c. c \<noteq> CHR ''/'') (dropWhile (\<lambda>c. c = CHR ''/'') (rev p)))"


subsection \<open>Concrete runs\<close>

text \<open>
  Six downloads are enqueued under the default settings (four slots); the executor of
  the first stores its controller; the first job is paused; its executor, aborted by
  the pause, rejects.
\<close>

definition six_downloads :: "(int \<times> event) list" where
  "six_downloads =
     [(1000, EnqueueDownload ''b'' ''k1'' ''/tmp/k1'' 10),
      (1000, EnqueueDownload ''b'' ''k2'' ''/tmp/k2'' 10),
      (1000, EnqueueDownload ''b'' ''k3'' ''/tmp/k3'' 10),
      (1000, EnqueueDownload ''b'' ''k4'' ''/tmp/k4'' 10),
      (1000, EnqueueDownload ''b'' ''k5'' ''/tmp/k5'' 10),
      (1000, EnqueueDownload ''b'' ''k6'' ''/tmp/k6'' 10)]"

definition pause_first :: "(int \<times> event) list" where
  "pause_first =
     six_downloads @ [(1010, StoreController 0), (2000, PauseTransfer ''transfer-1000-1'')]"

definition pause_then_settle :: "(int \<times> event) list" where
  "pause_then_settle = pause_first @ [(2005, Settle 0 (Some ''Request aborted''))]"

text \<open>One download of a 10 byte object that runs to completion, then a cancel of it.\<close>

definition download_completes :: "(int \<times> event) list" where
  "download_completes =
     [(1000, EnqueueDownload ''b'' ''k'' ''/tmp/k'' 10), (1010, StoreController 0),
      (1200, OnData 0 10), (1300, Settle 0 None)]"

definition cancel_completed :: "(int \<times> event) list" where
  "cancel_completed = download_completes @ [(5000, CancelTransfer ''transfer-1000-1'')]"

text \<open>One download that fails, then a cancel of it.\<close>

definition download_fails :: "(int \<times> event) list" where
  "download_fails =
     [(1000, EnqueueDownload ''b'' ''k'' ''/tmp/k'' 10),
      (1300, Settle 0 (Some ''Access Denied''))]"

definition cancel_failed :: "(int \<times> event) list" where
  "cancel_failed = download_fails @ [(5000, CancelTransfer ''transfer-1000-1'')]"

text \<open>
  A download enqueued with an expected size of 1000 bytes whose body delivers 400
  bytes and ends.
\<close>

definition short_download :: "(int \<times> event) list" where
  "short_download =
     [(1000, EnqueueDownload ''b'' ''k'' ''/tmp/k'' 1000), (1010, StoreController 0),
      (1200, OnData 0 400), (1300, Settle 0 None)]"

text \<open>A subscriber is bound, then one download runs to completion.\<close>

definition subscribed_download :: "(int \<times> event) list" where
  "subscribed_download = (500, SetProgressCallback) # download_completes"

text \<open>
  One upload is dispatched and stores its controller; it is paused; the upload,
  aborted by the pause, rejects. Nothing resumes or dispatches the job again.
\<close>

definition upload_paused :: "(int \<times> event) list" where
  "upload_paused =
     [(1000, EnqueueUpload ''/home/u/a.bin'' ''b'' ''in/''), (1010, StoreController 0),
      (1500, HttpUploadProgress 0 400), (2000, PauseTransfer ''transfer-1000-1'')]"

definition upload_paused_rejects :: "(int \<times> event) list" where
  "upload_paused_rejects = upload_paused @ [(2005, Settle 0 (Some ''Upload aborted.''))]"

definition fs1000 :: "string \<Rightarrow> int option" where
  "fs1000 p = Some 1000"

text \<open>
  A run of any length: \<open>n\<close> downloads are enqueued at time 1000, then the first \<open>m\<close>
  of them are cancelled, by the ids \<open>generateId\<close> gave them.
\<close>

definition enqueue_many :: "nat \<Rightarrow> (int \<times> event) list" where
  "enqueue_many n = replicate n (1000, EnqueueDownload ''b'' ''k'' ''/tmp/k'' 10)"

definition cancel_many :: "nat \<Rightarrow> (int \<times> event) list" where
  "cancel_many m = map (\<lambda>c. (2000, CancelTransfer (''transfer-1000-'' @ decimal c))) [1..<Suc m]"

definition idOf :: "nat \<Rightarrow> string" where
  "idOf c = ''transfer-1000-'' @ decimal c"

definition terminalFlags :: "engine \<Rightarrow> bool list" where
  "terminalFlags s = map (\<lambda>j. isTerminal (status j)) (queue s)"

text \<open>Reading a decimal rendering back, to show that distinct counters give distinct ids.\<close>

definition digitValue :: "char \<Rightarrow> nat" where
  "digitValue c = of_char c - 48"

definition undecimal :: "string \<Rightarrow> nat" where
  "undecimal cs = foldl (\<lambda>a c. 10 * a + digitValue c) 0 cs"

section \<open>Properties\<close>

subsection \<open>Array search\<close>

lemma findIndex_Some:
  "findIndex P xs = Some i \<Longrightarrow> i < length xs \<and> P (xs ! i)"
proof (induction xs arbitrary: i)
  case Nil
  then show ?case by simp
next
  case (Cons x xs)
  then show ?case by (cases "P x") auto
qed

lemma findIndex_None: "findIndex P xs = None \<Longrightarrow> filter P xs = []"
  by (induction xs) (auto split: if_splits)

subsection \<open>The dispatcher in closed form\<close>

lemma queue_emitProgress [simp]: "queue (emitProgress now job s) = queue s"
  by (simp add: emitProgress_def Let_def)

lemma settings_emitProgress [simp]: "settings (emitProgress now job s) = settings s"
  by (simp add: emitProgress_def Let_def)

lemma activeCount_emitProgress [simp]: "activeCount (emitProgress now job s) = activeCount s"
  by (simp add: emitProgress_def Let_def)

lemma jobIdCounter_emitProgress [simp]: "jobIdCounter (emitProgress now job s) = jobIdCounter s"
  by (simp add: emitProgress_def Let_def)

lemma queue_dispatch:
  "queue (dispatch now i s)
     = (queue s)[i := (queue s ! i)\<lparr>status := Active, startedAt := Some now\<rparr>]"
  by (simp add: dispatch_def Let_def)

lemma settings_dispatch: "settings (dispatch now i s) = settings s"
  by (simp add: dispatch_def Let_def)

lemma activeCount_dispatch: "activeCount (dispatch now i s) = activeCount s + 1"
  by (simp add: dispatch_def Let_def)

lemma jobIdCounter_dispatch: "jobIdCounter (dispatch now i s) = jobIdCounter s"
  by (simp add: dispatch_def Let_def)

lemma length_promote [simp]: "length (promote now k q) = length q"
  by (induction now k q rule: promote.induct) auto

lemma promote_Nil [simp]: "promote now k [] = []"
  by (cases k) auto

lemma promote_Cons_other:
  "status x \<noteq> Pending \<Longrightarrow> promote now k (x # q) = x # promote now k q"
  by (cases k) simp_all

lemma promote_no_pending: "filter (\<lambda>j. status j = Pending) q = [] \<Longrightarrow> promote now k q = q"
proof (induction q)
  case Nil
  then show ?case by simp
next
  case (Cons x q)
  have x: "status x \<noteq> Pending"
    using Cons.prems by (cases "status x = Pending") simp_all
  with Cons.prems have "filter (\<lambda>j. status j = Pending) q = []" by simp
  with Cons.IH x show ?case by (simp add: promote_Cons_other)
qed

lemma promote_first:
  "findIndex (\<lambda>j. status j = Pending) q = Some i \<Longrightarrow>
     promote now (Suc k) q
       = promote now k (q[i := (q ! i)\<lparr>status := Active, startedAt := Some now\<rparr>])"
proof (induction q arbitrary: i)
  case Nil
  then show ?case by simp
next
  case (Cons j q)
  show ?case
  proof (cases "status j = Pending")
    case True
    with Cons.prems have "i = 0" by simp
    with True show ?thesis by (simp add: promote_Cons_other)
  next
    case False
    with Cons.prems obtain i' where i: "i = Suc i'"
      and found: "findIndex (\<lambda>j. status j = Pending) q = Some i'"
      by auto
    from Cons.IH [OF found] False i show ?thesis
      by (simp add: promote_Cons_other)
  qed
qed

lemma queue_processQueue: "queue (processQueue now s) = promote now (freeSlots s) (queue s)"
proof (induction now s rule: processQueue.induct)
  case (1 now s)
  show ?case
  proof (cases "activeCount s < concurrentThreads (settings s)")
    case False
    then have "freeSlots s = 0" by (simp add: freeSlots_def)
    with False show ?thesis by (simp add: processQueue.simps [of now s])
  next
    case True
    then have k: "freeSlots s = Suc (freeSlots (dispatch now (i::nat) s))" for i
      by (simp add: freeSlots_def settings_dispatch activeCount_dispatch)
    show ?thesis
    proof (cases "findIndex (\<lambda>j. status j = Pending) (queue s)")
      case None
      with True show ?thesis
        by (simp add: processQueue.simps [of now s] promote_no_pending findIndex_None)
    next
      case (Some i)
      have "queue (processQueue now s) = queue (processQueue now (dispatch now i s))"
        using True Some by (simp add: processQueue.simps [of now s])
      also have "\<dots> = promote now (freeSlots (dispatch now i s)) (queue (dispatch now i s))"
        using "1.IH" [OF True Some] .
      also have "\<dots> = promote now (freeSlots s) (queue s)"
        using promote_first [OF Some, of now "freeSlots (dispatch now i s)"]
        by (simp add: k [of i] queue_dispatch)
      finally show ?thesis .
    qed
  qed
qed

lemma last_promote_pending:
  "status job = Pending \<Longrightarrow>
     last (promote now k (q @ [job]))
       = (if length (filter (\<lambda>j. status j = Pending) q) < k
          then job\<lparr>status := Active, startedAt := Some now\<rparr> else job)"
proof (induction q arbitrary: k)
  case Nil
  then show ?case by (cases k) auto
next
  case (Cons x q)
  show ?case
  proof (cases k)
    case 0
    then show ?thesis by simp
  next
    case (Suc k')
    have ne: "promote now m (q @ [job]) \<noteq> []" for m
      using length_promote [of now m "q @ [job]"] by (cases "promote now m (q @ [job])") auto
    show ?thesis
      using Suc Cons.IH [OF Cons.prems, of k'] Cons.IH [OF Cons.prems, of "Suc k'"] ne
      by simp
  qed
qed

lemma butlast_promote_pending:
  "butlast (promote now k (q @ [job])) = promote now k q"
proof (induction q arbitrary: k)
  case Nil
  then show ?case by (cases k) auto
next
  case (Cons x q)
  show ?case
  proof (cases k)
    case 0
    then show ?thesis by simp
  next
    case (Suc k')
    have ne: "promote now m (q @ [job]) \<noteq> []" for m
      using length_promote [of now m "q @ [job]"] by (cases "promote now m (q @ [job])") auto
    show ?thesis
      using Suc Cons.IH [of k'] Cons.IH [of "Suc k'"] ne by simp
  qed
qed

subsection \<open>Enqueueing\<close>

lemma enqueueUpload_push_job:
  "fst (enqueueUpload_push bn st now lp b pre s)
     = \<lparr> job_id = ''transfer-'' @ showInt now @ ''-'' @ decimal (Suc (jobIdCounter s)),
         direction = Upload, localPath = lp, bucket = b,
         key = (if pre \<noteq> [] then pre @ bn lp else bn lp),
         fileSize = (case st lp of None \<Rightarrow> 0 | Some sz \<Rightarrow> sz), transferred = 0,
         speed = 0, status = Pending, error = None, startedAt = None, completedAt = None \<rparr>"
  by (simp add: enqueueUpload_push_def generateId_def Let_def)

lemma enqueueUpload_push_state:
  "snd (enqueueUpload_push bn st now lp b pre s)
     = s\<lparr>jobIdCounter := Suc (jobIdCounter s),
         queue := queue s @ [fst (enqueueUpload_push bn st now lp b pre s)]\<rparr>"
  by (simp add: enqueueUpload_push_def generateId_def Let_def)

lemma enqueueDownload_push_job:
  "fst (enqueueDownload_push now b k lp sz s)
     = \<lparr> job_id = ''transfer-'' @ showInt now @ ''-'' @ decimal (Suc (jobIdCounter s)),
         direction = Download, localPath = lp, bucket = b, key = k, fileSize = sz,
         transferred = 0, speed = 0, status = Pending, error = None, startedAt = None,
         completedAt = None \<rparr>"
  by (simp add: enqueueDownload_push_def generateId_def Let_def)

lemma enqueueDownload_push_state:
  "snd (enqueueDownload_push now b k lp sz s)
     = s\<lparr>jobIdCounter := Suc (jobIdCounter s),
         queue := queue s @ [fst (enqueueDownload_push now b k lp sz s)]\<rparr>"
  by (simp add: enqueueDownload_push_def generateId_def Let_def)

text \<open>
  What the dispatch at the end of an enqueue does to a state whose array ends with
  the job just pushed.
\<close>

lemma dispatch_after_push:
  assumes "queue s2 = q @ [job]" and "status job = Pending"
  shows "last (queue (processQueue now (emitProgress now job s2)))
           = (if length (filter (\<lambda>j. status j = Pending) q) < freeSlots s2
              then job\<lparr>status := Active, startedAt := Some now\<rparr> else job)"
    and "butlast (queue (processQueue now (emitProgress now job s2)))
           = promote now (freeSlots s2) q"
    and "queue (processQueue now (emitProgress now job s2)) \<noteq> []"
proof -
  have slots: "freeSlots (emitProgress now job s2) = freeSlots s2"
    by (simp add: freeSlots_def)
  have q: "queue (processQueue now (emitProgress now job s2))
             = promote now (freeSlots s2) (q @ [job])"
    by (simp add: queue_processQueue slots assms(1))
  show "last (queue (processQueue now (emitProgress now job s2)))
           = (if length (filter (\<lambda>j. status j = Pending) q) < freeSlots s2
              then job\<lparr>status := Active, startedAt := Some now\<rparr> else job)"
    unfolding q using last_promote_pending [OF assms(2)] .
  show "butlast (queue (processQueue now (emitProgress now job s2)))
           = promote now (freeSlots s2) q"
    unfolding q by (rule butlast_promote_pending)
  have "length (queue (processQueue now (emitProgress now job s2))) = Suc (length q)"
    unfolding q by simp
  then show "queue (processQueue now (emitProgress now job s2)) \<noteq> []"
    by (cases "queue (processQueue now (emitProgress now job s2))") simp_all
qed

lemma slot_free_iff:
  "(pendingJobs s < freeSlots s)
     = (activeCount s + int (pendingJobs s) < concurrentThreads (settings s))"
  by (simp add: freeSlots_def) linarith

lemma enqueueUpload_result:
  "fst (enqueueUpload bn st now lp b pre s)
     = (if activeCount s + int (pendingJobs s) < concurrentThreads (settings s)
        then (fst (enqueueUpload_push bn st now lp b pre s))
               \<lparr>status := Active, startedAt := Some now\<rparr>
        else fst (enqueueUpload_push bn st now lp b pre s))"
proof -
  obtain job s2 where push: "enqueueUpload_push bn st now lp b pre s = (job, s2)"
    by (cases "enqueueUpload_push bn st now lp b pre s")
  have job: "status job = Pending"
    using enqueueUpload_push_job [of bn st now lp b pre s] push by simp
  have s2: "s2 = s\<lparr>jobIdCounter := Suc (jobIdCounter s), queue := queue s @ [job]\<rparr>"
    using enqueueUpload_push_state [of bn st now lp b pre s] push by simp
  then have q: "queue s2 = queue s @ [job]" and slots: "freeSlots s2 = freeSlots s"
    by (simp_all add: freeSlots_def)
  have "fst (enqueueUpload bn st now lp b pre s)
          = last (queue (processQueue now (emitProgress now job s2)))"
    by (simp add: enqueueUpload_def push Let_def)
  also have "\<dots> = (if pendingJobs s < freeSlots s
                     then job\<lparr>status := Active, startedAt := Some now\<rparr> else job)"
    using dispatch_after_push(1) [OF q job, of now] by (simp add: slots pendingJobs_def)
  finally show ?thesis
    by (simp add: slot_free_iff push)
qed

lemma enqueueUpload_queue:
  "queue (snd (enqueueUpload bn st now lp b pre s))
     = queue (processQueue now s) @ [fst (enqueueUpload bn st now lp b pre s)]"
proof -
  obtain job s2 where push: "enqueueUpload_push bn st now lp b pre s = (job, s2)"
    by (cases "enqueueUpload_push bn st now lp b pre s")
  have job: "status job = Pending"
    using enqueueUpload_push_job [of bn st now lp b pre s] push by simp
  have s2: "s2 = s\<lparr>jobIdCounter := Suc (jobIdCounter s), queue := queue s @ [job]\<rparr>"
    using enqueueUpload_push_state [of bn st now lp b pre s] push by simp
  then have q: "queue s2 = queue s @ [job]" and slots: "freeSlots s2 = freeSlots s"
    by (simp_all add: freeSlots_def)
  let ?q4 = "queue (processQueue now (emitProgress now job s2))"
  have r: "enqueueUpload bn st now lp b pre s
             = (last ?q4, processQueue now (emitProgress now job s2))"
    by (simp add: enqueueUpload_def push Let_def)
  have "?q4 = butlast ?q4 @ [last ?q4]"
    using dispatch_after_push(3) [OF q job, of now] by simp
  also have "butlast ?q4 = queue (processQueue now s)"
    using dispatch_after_push(2) [OF q job, of now] by (simp add: slots queue_processQueue)
  finally show ?thesis by (simp add: r)
qed

lemma enqueueDownload_result:
  "fst (enqueueDownload now b k lp sz s)
     = (if activeCount s + int (pendingJobs s) < concurrentThreads (settings s)
        then (fst (enqueueDownload_push now b k lp sz s))
               \<lparr>status := Active, startedAt := Some now\<rparr>
        else fst (enqueueDownload_push now b k lp sz s))"
proof -
  obtain job s2 where push: "enqueueDownload_push now b k lp sz s = (job, s2)"
    by (cases "enqueueDownload_push now b k lp sz s")
  have job: "status job = Pending"
    using enqueueDownload_push_job [of now b k lp sz s] push by simp
  have s2: "s2 = s\<lparr>jobIdCounter := Suc (jobIdCounter s), queue := queue s @ [job]\<rparr>"
    using enqueueDownload_push_state [of now b k lp sz s] push by simp
  then have q: "queue s2 = queue s @ [job]" and slots: "freeSlots s2 = freeSlots s"
    by (simp_all add: freeSlots_def)
  have "fst (enqueueDownload now b k lp sz s)
          = last (queue (processQueue now (emitProgress now job s2)))"
    by (simp add: enqueueDownload_def push Let_def)
  also have "\<dots> = (if pendingJobs s < freeSlots s
                     then job\<lparr>status := Active, startedAt := Some now\<rparr> else job)"
    using dispatch_after_push(1) [OF q job, of now] by (simp add: slots pendingJobs_def)
  finally show ?thesis
    by (simp add: slot_free_iff push)
qed

lemma enqueueDownload_queue:
  "queue (snd (enqueueDownload now b k lp sz s))
     = queue (processQueue now s) @ [fst (enqueueDownload now b k lp sz s)]"
proof -
  obtain job s2 where push: "enqueueDownload_push now b k lp sz s = (job, s2)"
    by (cases "enqueueDownload_push now b k lp sz s")
  have job: "status job = Pending"
    using enqueueDownload_push_job [of now b k lp sz s] push by simp
  have s2: "s2 = s\<lparr>jobIdCounter := Suc (jobIdCounter s), queue := queue s @ [job]\<rparr>"
    using enqueueDownload_push_state [of now b k lp sz s] push by simp
  then have q: "queue s2 = queue s @ [job]" and slots: "freeSlots s2 = freeSlots s"
    by (simp_all add: freeSlots_def)
  let ?q4 = "queue (processQueue now (emitProgress now job s2))"
  have r: "enqueueDownload now b k lp sz s
             = (last ?q4, processQueue now (emitProgress now job s2))"
    by (simp add: enqueueDownload_def push Let_def)
  have "?q4 = butlast ?q4 @ [last ?q4]"
    using dispatch_after_push(3) [OF q job, of now] by simp
  also have "butlast ?q4 = queue (processQueue now s)"
    using dispatch_after_push(2) [OF q job, of now] by (simp add: slots queue_processQueue)
  finally show ?thesis by (simp add: r)
qed

text \<open>
  C10. The key of the job that \<open>enqueueUpload(localPath, bucket, prefix)\<close> creates and
  returns is the prefix followed directly by the base name of the local path when the
  prefix is not empty, and the base name alone when it is empty; no separator is
  inserted. It holds in every state, for every \<open>basename\<close> and every file system.
\<close>

theorem enqueueUpload_key:
  "key (fst (enqueueUpload bn st now lp b pre s)) = (if pre = [] then bn lp else pre @ bn lp)
   \<and> key (fst (enqueueUpload_push bn st now lp b pre s))
       = (if pre = [] then bn lp else pre @ bn lp)"
  by (simp add: enqueueUpload_result enqueueUpload_push_job)

theorem enqueueUpload_key_witness:
  "key (fst (enqueueUpload posix_basename (\<lambda>_. None) 1000 ''/home/u/a.txt'' ''b''
             ''photos/'' initial)) = ''photos/a.txt''
   \<and> key (fst (enqueueUpload posix_basename (\<lambda>_. None) 1000 ''/home/u/a.txt'' ''b''
               [] initial)) = ''a.txt''"
  using enqueueUpload_key [of posix_basename "\<lambda>_. None" 1000 "''/home/u/a.txt''" "''b''"
      "''photos/''" initial]
    enqueueUpload_key [of posix_basename "\<lambda>_. None" 1000 "''/home/u/a.txt''" "''b''"
      "[]" initial]
  by (simp add: posix_basename_def)

text \<open>
  C9. When \<open>statSync(localPath)\<close> throws, \<open>enqueueUpload\<close> still returns a job. The
  job is created with \<open>fileSize = 0\<close>, no error and status \<open>pending\<close>, and is pushed at the
  end of the array. The dispatch then runs inside the call: the job handed back, which
  is the last of the array, has \<open>fileSize = 0\<close> and no error, and it is \<open>active\<close> and
  stamped with \<open>startedAt\<close> when the active count plus the number of jobs already
  pending is below \<open>concurrentThreads\<close>, and \<open>pending\<close> otherwise.
\<close>

theorem enqueueUpload_stat_fails:
  assumes "st lp = None"
  shows "fst (enqueueUpload_push bn st now lp b pre s)
        = \<lparr> job_id = ''transfer-'' @ showInt now @ ''-'' @ decimal (Suc (jobIdCounter s)),
            direction = Upload, localPath = lp, bucket = b,
            key = (if pre \<noteq> [] then pre @ bn lp else bn lp),
            fileSize = 0, transferred = 0, speed = 0, status = Pending, error = None,
            startedAt = None, completedAt = None \<rparr>
    \<and> queue (snd (enqueueUpload_push bn st now lp b pre s))
        = queue s @ [fst (enqueueUpload_push bn st now lp b pre s)]
    \<and> fst (enqueueUpload bn st now lp b pre s)
        = \<lparr> job_id = ''transfer-'' @ showInt now @ ''-'' @ decimal (Suc (jobIdCounter s)),
            direction = Upload, localPath = lp, bucket = b,
            key = (if pre \<noteq> [] then pre @ bn lp else bn lp),
            fileSize = 0, transferred = 0, speed = 0,
            status = (if activeCount s + int (pendingJobs s) < concurrentThreads (settings s)
                      then Active else Pending),
            error = None,
            startedAt = (if activeCount s + int (pendingJobs s) < concurrentThreads (settings s)
                         then Some now else None),
            completedAt = None \<rparr>
    \<and> queue (snd (enqueueUpload bn st now lp b pre s))
        = queue (processQueue now s) @ [fst (enqueueUpload bn st now lp b pre s)]
    \<and> length (queue (snd (enqueueUpload bn st now lp b pre s))) = Suc (length (queue s))"
proof -
  have created: "fst (enqueueUpload_push bn st now lp b pre s)
        = \<lparr> job_id = ''transfer-'' @ showInt now @ ''-'' @ decimal (Suc (jobIdCounter s)),
            direction = Upload, localPath = lp, bucket = b,
            key = (if pre \<noteq> [] then pre @ bn lp else bn lp),
            fileSize = 0, transferred = 0, speed = 0, status = Pending, error = None,
            startedAt = None, completedAt = None \<rparr>"
    using assms by (simp add: enqueueUpload_push_job)
  have pushed: "queue (snd (enqueueUpload_push bn st now lp b pre s))
        = queue s @ [fst (enqueueUpload_push bn st now lp b pre s)]"
    by (simp add: enqueueUpload_push_state)
  have returned: "fst (enqueueUpload bn st now lp b pre s)
        = \<lparr> job_id = ''transfer-'' @ showInt now @ ''-'' @ decimal (Suc (jobIdCounter s)),
            direction = Upload, localPath = lp, bucket = b,
            key = (if pre \<noteq> [] then pre @ bn lp else bn lp),
            fileSize = 0, transferred = 0, speed = 0,
            status = (if activeCount s + int (pendingJobs s) < concurrentThreads (settings s)
                      then Active else Pending),
            error = None,
            startedAt = (if activeCount s + int (pendingJobs s) < concurrentThreads (settings s)
                         then Some now else None),
            completedAt = None \<rparr>"
    by (simp add: enqueueUpload_result created)
  have appended: "queue (snd (enqueueUpload bn st now lp b pre s))
        = queue (processQueue now s) @ [fst (enqueueUpload bn st now lp b pre s)]"
    by (rule enqueueUpload_queue)
  have "length (queue (processQueue now s)) = length (queue s)"
    by (simp add: queue_processQueue)
  then have len: "length (queue (snd (enqueueUpload bn st now lp b pre s)))
                    = Suc (length (queue s))"
    by (simp add: appended)
  from created pushed returned appended len show ?thesis
    by (intro conjI)
qed

theorem enqueueUpload_stat_fails_witness:
  "(\<lambda>_::string. None :: int option) ''/nowhere/x.bin'' = None
   \<and> fst (enqueueUpload posix_basename (\<lambda>_. None) 1000 ''/nowhere/x.bin'' ''b'' ''in/''
            (initial\<lparr>activeCount := 4\<rparr>))
       = \<lparr> job_id = ''transfer-1000-1'', direction = Upload, localPath = ''/nowhere/x.bin'',
           bucket = ''b'', key = ''in/x.bin'', fileSize = 0, transferred = 0, speed = 0,
           status = Pending, error = None, startedAt = None, completedAt = None \<rparr>
   \<and> fst (enqueueUpload posix_basename (\<lambda>_. None) 1000 ''/nowhere/x.bin'' ''b'' ''in/''
            initial)
       = \<lparr> job_id = ''transfer-1000-1'', direction = Upload, localPath = ''/nowhere/x.bin'',
           bucket = ''b'', key = ''in/x.bin'', fileSize = 0, transferred = 0, speed = 0,
           status = Active, error = None, startedAt = Some 1000, completedAt = None \<rparr>
   \<and> length (queue (snd (enqueueUpload posix_basename (\<lambda>_. None) 1000 ''/nowhere/x.bin''
                            ''b'' ''in/'' initial))) = 1"
proof -
  have id1: "showInt 1000 = ''1000''" "decimal (Suc 0) = ''1''"
    by code_simp+
  show ?thesis
    using enqueueUpload_stat_fails [where st = "\<lambda>_. None" and lp = "''/nowhere/x.bin''"
        and bn = posix_basename and now = 1000 and b = "''b''" and pre = "''in/''"
        and s = initial]
      enqueueUpload_stat_fails [where st = "\<lambda>_. None" and lp = "''/nowhere/x.bin''"
        and bn = posix_basename and now = 1000 and b = "''b''" and pre = "''in/''"
        and s = "initial\<lparr>activeCount := 4\<rparr>"]
    by (simp add: initial_def pendingJobs_def posix_basename_def id1 queue_processQueue)
qed

text \<open>
  In the initial state, with a stat that throws, the job that \<open>enqueueUpload\<close> has
  queued and hands back is \<open>active\<close>, not \<open>pending\<close>.
\<close>

theorem enqueueUpload_stat_fails_active:
  "(\<lambda>_::string. None :: int option) ''/nowhere/x.bin'' = None
   \<and> status (fst (enqueueUpload posix_basename (\<lambda>_. None) 1000 ''/nowhere/x.bin'' ''b''
                   ''in/'' initial)) \<noteq> Pending
   \<and> map status (queue (snd (enqueueUpload posix_basename (\<lambda>_. None) 1000
                                ''/nowhere/x.bin'' ''b'' ''in/'' initial))) = [Active]"
proof -
  have r: "status (fst (enqueueUpload posix_basename (\<lambda>_. None) 1000 ''/nowhere/x.bin'' ''b''
                        ''in/'' initial)) = Active"
    by (simp add: enqueueUpload_result enqueueUpload_push_job initial_def pendingJobs_def)
  have "queue (processQueue 1000 initial) = []"
    by (simp add: queue_processQueue initial_def)
  then have "map status (queue (snd (enqueueUpload posix_basename (\<lambda>_. None) 1000
                                ''/nowhere/x.bin'' ''b'' ''in/'' initial))) = [Active]"
    by (simp add: enqueueUpload_queue r)
  with r show ?thesis by simp
qed

text \<open>
  C7. A call of \<open>enqueueUpload\<close> or \<open>enqueueDownload\<close> creates the job in status
  \<open>pending\<close> and appends it to the array that a dispatch pass alone would have left.
  The dispatch runs inside the call, so the job handed back is \<open>active\<close> when the
  active count plus the number of jobs already pending is below \<open>concurrentThreads\<close>,
  and \<open>pending\<close> otherwise.
\<close>

theorem enqueue_status_at_return:
  "status (fst (enqueueDownload_push now b k lp sz s)) = Pending
   \<and> status (fst (enqueueUpload_push bn st now lp b pre s)) = Pending
   \<and> status (fst (enqueueDownload now b k lp sz s))
       = (if activeCount s + int (pendingJobs s) < concurrentThreads (settings s)
          then Active else Pending)
   \<and> status (fst (enqueueUpload bn st now lp b pre s))
       = (if activeCount s + int (pendingJobs s) < concurrentThreads (settings s)
          then Active else Pending)
   \<and> queue (snd (enqueueDownload now b k lp sz s))
       = queue (processQueue now s) @ [fst (enqueueDownload now b k lp sz s)]
   \<and> queue (snd (enqueueUpload bn st now lp b pre s))
       = queue (processQueue now s) @ [fst (enqueueUpload bn st now lp b pre s)]"
proof -
  have "status (fst (enqueueDownload now b k lp sz s))
       = (if activeCount s + int (pendingJobs s) < concurrentThreads (settings s)
          then Active else Pending)"
    by (simp add: enqueueDownload_result enqueueDownload_push_job)
  moreover have "status (fst (enqueueUpload bn st now lp b pre s))
       = (if activeCount s + int (pendingJobs s) < concurrentThreads (settings s)
          then Active else Pending)"
    by (simp add: enqueueUpload_result enqueueUpload_push_job)
  moreover have "status (fst (enqueueDownload_push now b k lp sz s)) = Pending"
    by (simp add: enqueueDownload_push_job)
  moreover have "status (fst (enqueueUpload_push bn st now lp b pre s)) = Pending"
    by (simp add: enqueueUpload_push_job)
  ultimately show ?thesis
    using enqueueDownload_queue [of now b k lp sz s] enqueueUpload_queue [of bn st now lp b pre s]
    by simp
qed

theorem enqueue_status_at_return_witness:
  "status (fst (enqueueDownload 1000 ''b'' ''k'' ''/tmp/k'' 10 initial)) = Active
   \<and> status (fst (enqueueDownload 1000 ''b'' ''k'' ''/tmp/k'' 10
                   (initial\<lparr>activeCount := 4\<rparr>))) = Pending"
  using enqueue_status_at_return [of 1000 "''b''" "''k''" "''/tmp/k''" 10 initial]
    enqueue_status_at_return [of 1000 "''b''" "''k''" "''/tmp/k''" 10
      "initial\<lparr>activeCount := 4\<rparr>"]
  by (simp add: initial_def pendingJobs_def)

text \<open>
  In the initial state all four slots are free: the first job enqueued is dispatched
  inside the call and is not \<open>pending\<close> when the call hands it back.
\<close>

theorem enqueue_returns_active:
  "status (fst (enqueueDownload 1000 ''b'' ''k'' ''/tmp/k'' 10 initial)) \<noteq> Pending"
  by (simp add: enqueueDownload_result enqueueDownload_push_job initial_def pendingJobs_def)

subsection \<open>What the single operations do\<close>

text \<open>Pruning: at most the ceiling is left, the oldest terminal jobs go, no other job goes.\<close>

lemma terminal_removeOldest:
  "filter (\<lambda>j. isTerminal (status j)) (removeOldest n q)
     = drop n (filter (\<lambda>j. isTerminal (status j)) q)"
  by (induction n q rule: removeOldest.induct) simp_all

lemma nonterminal_removeOldest:
  "filter (\<lambda>j. \<not> isTerminal (status j)) (removeOldest n q)
     = filter (\<lambda>j. \<not> isTerminal (status j)) q"
  by (induction n q rule: removeOldest.induct) simp_all

lemma pruneQueue_drops_oldest:
  "filter (\<lambda>j. isTerminal (status j)) (queue (pruneQueue s))
     = drop (terminalJobs s - MAX_HISTORY_SIZE) (filter (\<lambda>j. isTerminal (status j)) (queue s))"
  by (simp add: pruneQueue_def Let_def terminalJobs_def terminal_removeOldest)

lemma terminalJobs_pruneQueue: "terminalJobs (pruneQueue s) \<le> MAX_HISTORY_SIZE"
proof -
  have "terminalJobs (pruneQueue s) = terminalJobs s - (terminalJobs s - MAX_HISTORY_SIZE)"
    using pruneQueue_drops_oldest [of s] by (simp add: terminalJobs_def)
  then show ?thesis by simp
qed

lemma pruneQueue_keeps_nonterminal:
  "filter (\<lambda>j. \<not> isTerminal (status j)) (queue (pruneQueue s))
     = filter (\<lambda>j. \<not> isTerminal (status j)) (queue s)"
  by (simp add: pruneQueue_def Let_def nonterminal_removeOldest)

text \<open>
  Emission: with a subscriber, a terminal snapshot is always delivered; a
  non-terminal one is dropped within 100ms of the last emission for the id.
\<close>

lemma emitProgress_terminal:
  "progressCallback s \<Longrightarrow> isTerminal (status job) \<Longrightarrow>
     emitted (emitProgress now job s) = emitted s @ [job]
     \<and> lastEmitTime (emitProgress now job s) (job_id job) = Some now"
  by (simp add: emitProgress_def Let_def)

lemma emitProgress_suppressed:
  "\<not> isTerminal (status job) \<Longrightarrow> lastEmitTime s (job_id job) = Some t \<Longrightarrow> now - t < 100 \<Longrightarrow>
     emitProgress now job s = s"
  by (simp add: emitProgress_def Let_def)

lemma emitProgress_spacing:
  "\<not> isTerminal (status job) \<Longrightarrow> lastEmitTime s (job_id job) = Some t \<Longrightarrow>
     emitted (emitProgress now job s) \<noteq> emitted s \<Longrightarrow> t + 100 \<le> now"
  by (cases "now - t < 100") (simp_all add: emitProgress_suppressed)

text \<open>Cancel, pause and resume return at once where their guard fails.\<close>

lemma cancelTransfer_absent:
  "findIndex (\<lambda>j. job_id j = i) (queue s) = None \<Longrightarrow> cancelTransfer now i s = s"
  by (simp add: cancelTransfer_def)

lemma pauseTransfer_absent:
  "findIndex (\<lambda>j. job_id j = i) (queue s) = None \<Longrightarrow> pauseTransfer now i s = s"
  by (simp add: pauseTransfer_def)

lemma pauseTransfer_not_active:
  "findIndex (\<lambda>j. job_id j = i) (queue s) = Some k \<Longrightarrow> status (queue s ! k) \<noteq> Active \<Longrightarrow>
     pauseTransfer now i s = s"
  by (simp add: pauseTransfer_def)

lemma resumeTransfer_absent:
  "findIndex (\<lambda>j. job_id j = i) (queue s) = None \<Longrightarrow> resumeTransfer now i s = s"
  by (simp add: resumeTransfer_def)

lemma resumeTransfer_not_paused:
  "findIndex (\<lambda>j. job_id j = i) (queue s) = Some k \<Longrightarrow> status (queue s ! k) \<noteq> Paused \<Longrightarrow>
     resumeTransfer now i s = s"
  by (simp add: resumeTransfer_def)

text \<open>Pausing an active job, and resuming a paused one.\<close>

lemma queue_abortController: "queue (abortController i s) = queue s"
  by (simp add: abortController_def split: option.splits)

lemma activeCount_abortController: "activeCount (abortController i s) = activeCount s"
  by (simp add: abortController_def split: option.splits)

lemma pauseTransfer_active:
  assumes "findIndex (\<lambda>j. job_id j = i) (queue s) = Some k"
    and "status (queue s ! k) = Active"
  shows "queue (pauseTransfer now i s) = (queue s)[k := (queue s ! k)\<lparr>status := Paused\<rparr>]"
    and "activeCount (pauseTransfer now i s) = activeCount s - 1"
  using assms
  by (simp_all add: pauseTransfer_def Let_def queue_abortController activeCount_abortController)

lemma map_transferred_promote: "map transferred (promote now k q) = map transferred q"
  by (induction now k q rule: promote.induct) simp_all

lemma resumeTransfer_paused:
  assumes "findIndex (\<lambda>j. job_id j = i) (queue s) = Some k"
    and "status (queue s ! k) = Paused"
  shows "transferred (queue (resumeTransfer now i s) ! k) = 0"
proof -
  let ?q = "(queue s)[k := (queue s ! k)\<lparr>status := Pending, transferred := 0\<rparr>]"
  from assms(1) have k: "k < length (queue s)"
    using findIndex_Some [of "\<lambda>j. job_id j = i" "queue s" k] by simp
  obtain n where q: "queue (resumeTransfer now i s) = promote now n ?q"
    using assms by (simp add: resumeTransfer_def Let_def queue_processQueue)
  have "transferred (promote now n ?q ! k) = map transferred (promote now n ?q) ! k"
    using k by simp
  also have "\<dots> = map transferred ?q ! k"
    by (simp only: map_transferred_promote)
  also have "\<dots> = 0"
    using k by simp
  finally show ?thesis by (simp only: q)
qed

text \<open>The end of an upload that was not cancelled.\<close>

lemma upload_completion_sets_transferred:
  assumes "locate (jobRef (executors s ! e)) s = Some (InQueue k)"
    and "k < length (queue s)" and "status (queue s ! k) \<noteq> Cancelled"
  shows "queue (executeUpload_end now e None s) ! k
           = (queue s ! k)\<lparr>status := Completed, transferred := fileSize (queue s ! k),
                            completedAt := Some now\<rparr>"
  using assms by (simp add: executeUpload_end_def Let_def)

subsection \<open>Job ids are distinct\<close>

lemma digitValue_digit: "d < 10 \<Longrightarrow> digitValue (digit d) = d"
proof -
  assume "d < 10"
  then have "d \<in> {0, 1, 2, 3, 4, 5, 6, 7, 8, 9}" by auto
  then show ?thesis
    by (auto simp: digit_def digitValue_def)
qed

lemma undecimal_decimal: "undecimal (decimal n) = n"
proof (induction n rule: decimal.induct)
  case (1 n)
  show ?case
  proof (cases "n < 10")
    case True
    then show ?thesis
      by (simp add: decimal.simps [of n] undecimal_def digitValue_digit)
  next
    case False
    have "undecimal (decimal n) = 10 * undecimal (decimal (n div 10)) + digitValue (digit (n mod 10))"
      using False by (simp add: decimal.simps [of n] undecimal_def)
    also have "\<dots> = 10 * (n div 10) + n mod 10"
      using "1.IH" [OF False] by (simp add: digitValue_digit)
    finally show ?thesis by simp
  qed
qed

lemma decimal_inj: "decimal a = decimal b \<Longrightarrow> a = b"
  by (metis undecimal_decimal)

lemma prefix_1000: "''transfer-'' @ showInt 1000 @ ''-'' = ''transfer-1000-''"
  by code_simp

lemma findIndex_distinct:
  "distinct (map g xs) \<Longrightarrow> m < length xs \<Longrightarrow> findIndex (\<lambda>x. g x = g (xs ! m)) xs = Some m"
proof (induction xs arbitrary: m)
  case Nil
  then show ?case by simp
next
  case (Cons x xs)
  show ?case
  proof (cases m)
    case 0
    then show ?thesis by simp
  next
    case (Suc k)
    with Cons.prems have k: "k < length xs" and d: "distinct (map g xs)"
      and nx: "g x \<notin> g ` set xs" by simp_all
    from k have "g (xs ! k) \<in> g ` set xs" by simp
    with nx have "g x \<noteq> g (xs ! k)" by metis
    with Cons.IH [OF d k] Suc show ?thesis by simp
  qed
qed


subsection \<open>Many jobs enqueued, then cancelled\<close>

lemma map_job_id_promote: "map job_id (promote now k q) = map job_id q"
  by (induction now k q rule: promote.induct) simp_all

lemma map_terminal_promote:
  "map (\<lambda>j. isTerminal (status j)) (promote now k q) = map (\<lambda>j. isTerminal (status j)) q"
  by (induction now k q rule: promote.induct) (simp_all add: isTerminal_def)

lemma jobIdCounter_processQueue: "jobIdCounter (processQueue now s) = jobIdCounter s"
proof (induction now s rule: processQueue.induct)
  case (1 now s)
  show ?case
  proof (cases "activeCount s < concurrentThreads (settings s)")
    case False
    then show ?thesis by (simp add: processQueue.simps [of now s])
  next
    case True
    show ?thesis
    proof (cases "findIndex (\<lambda>j. status j = Pending) (queue s)")
      case None
      with True show ?thesis by (simp add: processQueue.simps [of now s])
    next
      case (Some i)
      with True "1.IH" [OF True Some] show ?thesis
        by (simp add: processQueue.simps [of now s] jobIdCounter_dispatch)
    qed
  qed
qed

lemma jobIdCounter_enqueueDownload:
  "jobIdCounter (snd (enqueueDownload now b k lp sz s)) = Suc (jobIdCounter s)"
proof -
  obtain job s2 where push: "enqueueDownload_push now b k lp sz s = (job, s2)"
    by (cases "enqueueDownload_push now b k lp sz s")
  have "jobIdCounter s2 = Suc (jobIdCounter s)"
    using enqueueDownload_push_state [of now b k lp sz s] push by simp
  then show ?thesis
    by (simp add: enqueueDownload_def push Let_def jobIdCounter_processQueue)
qed

lemma idOf_inj: "inj idOf"
  by (rule injI) (simp add: idOf_def decimal_inj)

lemma queue_cancelTransfer:
  "findIndex (\<lambda>j. job_id j = i) (queue s) = Some m \<Longrightarrow>
     queue (cancelTransfer now i s) = (queue s)[m := (queue s ! m)\<lparr>status := Cancelled\<rparr>]"
  by (simp add: cancelTransfer_def Let_def queue_abortController)

lemma foldl_replicate_Suc: "foldl f a (replicate (Suc n) x) = f (foldl f a (replicate n x)) x"
proof -
  have "replicate (Suc n) x = replicate n x @ [x]"
    by (simp add: replicate_append_same)
  then show ?thesis by (simp only: foldl_append foldl.simps)
qed

lemma after_enqueues:
  "map job_id (queue (foldl (step bn st) initial (enqueue_many n))) = map idOf [1..<Suc n]
   \<and> jobIdCounter (foldl (step bn st) initial (enqueue_many n)) = n
   \<and> terminalFlags (foldl (step bn st) initial (enqueue_many n)) = replicate n False"
proof (induction n)
  case 0
  then show ?case by (simp add: enqueue_many_def initial_def terminalFlags_def)
next
  case (Suc n)
  let ?s = "foldl (step bn st) initial (enqueue_many n)"
  let ?r = "enqueueDownload 1000 ''b'' ''k'' ''/tmp/k'' 10 ?s"
  have next_state: "foldl (step bn st) initial (enqueue_many (Suc n)) = snd ?r"
    unfolding enqueue_many_def foldl_replicate_Suc by simp
  have q: "queue (snd ?r) = promote 1000 (freeSlots ?s) (queue ?s) @ [fst ?r]"
    by (simp add: enqueueDownload_queue queue_processQueue)
  have new_id: "job_id (fst ?r) = idOf (Suc n)"
    using Suc.IH
    by (simp add: enqueueDownload_result enqueueDownload_push_job idOf_def prefix_1000 [symmetric])
  have new_flag: "isTerminal (status (fst ?r)) = False"
    by (simp add: enqueueDownload_result enqueueDownload_push_job isTerminal_def)
  have "map job_id (queue (snd ?r)) = map idOf [1..<Suc (Suc n)]"
    using Suc.IH by (simp add: q map_job_id_promote new_id)
  moreover have "jobIdCounter (snd ?r) = Suc n"
    using Suc.IH by (simp add: jobIdCounter_enqueueDownload)
  moreover have "terminalFlags (snd ?r) = replicate (Suc n) False"
    using Suc.IH
    by (simp add: terminalFlags_def q map_terminal_promote new_flag replicate_append_same)
  ultimately show ?case by (simp only: next_state)
qed


lemma flags_step:
  assumes "m < n"
  shows "(replicate m True @ replicate (n - m) False)[m := True]
           = replicate (Suc m) True @ replicate (n - Suc m) False"
proof -
  from assms obtain d where d: "n - m = Suc d" and d': "n - Suc m = d"
    by (cases "n - m") simp_all
  show ?thesis
    by (simp add: d d' list_update_append replicate_app_Cons_same)
qed

lemma after_cancels:
  assumes "m \<le> n"
  shows "map job_id (queue (foldl (step bn st) (foldl (step bn st) initial (enqueue_many n))
                               (cancel_many m))) = map idOf [1..<Suc n]
   \<and> terminalFlags (foldl (step bn st) (foldl (step bn st) initial (enqueue_many n))
                           (cancel_many m))
       = replicate m True @ replicate (n - m) False"
  using assms
proof (induction m)
  case 0
  then show ?case using after_enqueues [of bn st n] by (simp add: cancel_many_def)
next
  case (Suc m)
  let ?t = "foldl (step bn st) (foldl (step bn st) initial (enqueue_many n)) (cancel_many m)"
  from Suc.prems have m: "m < n" by simp
  with Suc.IH have ids: "map job_id (queue ?t) = map idOf [1..<Suc n]"
    and flags: "terminalFlags ?t = replicate m True @ replicate (n - m) False"
    by simp_all
  have "length (map job_id (queue ?t)) = length (map idOf [1..<Suc n])"
    by (simp only: ids)
  then have len: "length (queue ?t) = n"
    by (simp only: length_map length_upt)
  have next_state: "foldl (step bn st) (foldl (step bn st) initial (enqueue_many n))
                      (cancel_many (Suc m)) = cancelTransfer 2000 (idOf (Suc m)) ?t"
    by (simp add: cancel_many_def idOf_def)
  have "distinct (map idOf [1..<Suc n])"
    by (simp add: distinct_map inj_on_subset [OF idOf_inj])
  then have dist: "distinct (map job_id (queue ?t))" by (simp only: ids)
  have "job_id (queue ?t ! m) = map job_id (queue ?t) ! m"
    using m len by simp
  also have "\<dots> = idOf (Suc m)"
    using m by (simp only: ids) (simp add: nth_map_upt del: upt_Suc)
  finally have at_m: "job_id (queue ?t ! m) = idOf (Suc m)" .
  have "findIndex (\<lambda>j. job_id j = job_id (queue ?t ! m)) (queue ?t) = Some m"
    using findIndex_distinct [OF dist] m len by simp
  then have found: "findIndex (\<lambda>j. job_id j = idOf (Suc m)) (queue ?t) = Some m"
    by (simp only: at_m)
  have q: "queue (cancelTransfer 2000 (idOf (Suc m)) ?t)
             = (queue ?t)[m := (queue ?t ! m)\<lparr>status := Cancelled\<rparr>]"
    by (rule queue_cancelTransfer [OF found])
  have "map job_id (queue (cancelTransfer 2000 (idOf (Suc m)) ?t))
          = (map job_id (queue ?t))[m := map job_id (queue ?t) ! m]"
    using m len by (simp add: q map_update)
  then have ids': "map job_id (queue (cancelTransfer 2000 (idOf (Suc m)) ?t))
                     = map idOf [1..<Suc n]"
    by (simp only: list_update_id ids)
  have "terminalFlags (cancelTransfer 2000 (idOf (Suc m)) ?t) = (terminalFlags ?t)[m := True]"
    by (simp add: terminalFlags_def q map_update isTerminal_def)
  then have flags': "terminalFlags (cancelTransfer 2000 (idOf (Suc m)) ?t)
                       = replicate (Suc m) True @ replicate (n - Suc m) False"
    by (simp only: flags flags_step [OF m])
  from ids' flags' show ?case by (simp only: next_state)
qed

lemma terminalJobs_flags: "terminalJobs s = length (filter (\<lambda>b. b) (terminalFlags s))"
  by (simp add: terminalJobs_def terminalFlags_def filter_map comp_def)

subsection \<open>Runs on which the engine departs from its description\<close>

text \<open>
  C1. Under the default settings, \<open>concurrentThreads = 4\<close>, six downloads are
  enqueued, the first is paused and its executor then settles. \<open>pauseTransfer\<close> has
  decremented \<open>activeCount\<close> and the \<open>finally\<close> callback of the executor decrements it
  again, so the dispatcher fills two slots where one was freed: five jobs of the
  array are active.
\<close>

theorem five_active_of_four:
  "concurrentThreads (settings (run posix_basename fs1000 pause_then_settle)) = 4
   \<and> activeJobs (run posix_basename fs1000 six_downloads) = 4
   \<and> activeJobs (run posix_basename fs1000 pause_first) = 3
   \<and> activeCount (run posix_basename fs1000 pause_first) = 3
   \<and> activeJobs (run posix_basename fs1000 pause_then_settle) = 5
   \<and> activeCount (run posix_basename fs1000 pause_then_settle) = 4"
  by code_simp

text \<open>
  C3. 201 downloads are enqueued and each is cancelled. \<open>cancelTransfer\<close> makes a job
  terminal and runs no pruning pass (only the \<open>finally\<close> callback of an executor
  does), so the array then holds 201 terminal jobs, above the ceiling of 200.
\<close>

theorem cancelled_jobs_pile_up:
  "terminalJobs (run bn st (enqueue_many 201 @ cancel_many 201)) = 201
   \<and> length (queue (run bn st (enqueue_many 201 @ cancel_many 201))) = 201
   \<and> MAX_HISTORY_SIZE = 200"
proof -
  have r: "run bn st (enqueue_many 201 @ cancel_many 201)
             = foldl (step bn st) (foldl (step bn st) initial (enqueue_many 201)) (cancel_many 201)"
    by (simp only: run_def foldl_append)
  have le: "(201::nat) \<le> 201" by simp
  note inv = after_cancels [OF le, of bn st]
  have "terminalJobs (run bn st (enqueue_many 201 @ cancel_many 201)) = 201"
    using inv by (simp only: r terminalJobs_flags) simp
  moreover have "length (queue (run bn st (enqueue_many 201 @ cancel_many 201))) = 201"
  proof -
    have "length (map job_id (queue (run bn st (enqueue_many 201 @ cancel_many 201))))
            = length (map idOf [1..<Suc 201])"
      using inv by (simp only: r)
    then show ?thesis by (simp only: length_map length_upt)
  qed
  ultimately show ?thesis by (simp add: MAX_HISTORY_SIZE_def)
qed


text \<open>
  C2. A download runs to completion; \<open>cancelTransfer\<close> on the completed job then
  turns its status into \<open>cancelled\<close>: \<open>cancelTransfer\<close> tests only that the job is in
  the array, not its status.
\<close>

theorem cancel_relabels_completed:
  "map status (queue (run posix_basename fs1000 download_completes)) = [Completed]
   \<and> map status (queue (run posix_basename fs1000 cancel_completed)) = [Cancelled]"
  by code_simp

text \<open>
  C4. A download enqueued with \<open>fileSize = 1000\<close> whose body delivers 400 bytes and
  finishes becomes \<open>completed\<close> with \<open>transferred = 400\<close>: the end of \<open>executeDownload\<close>
  stamps \<open>completedAt\<close> and leaves \<open>transferred\<close> at the bytes counted.
\<close>

theorem download_completed_short:
  "map (\<lambda>j. (status j, transferred j, fileSize j, completedAt j))
       (queue (run posix_basename fs1000 short_download))
     = [(Completed, 400, 1000, Some 1300)]"
  by code_simp

text \<open>
  C5. A download fails, which sets \<open>error\<close>; \<open>cancelTransfer\<close> on the failed job then
  sets its status to \<open>cancelled\<close> and the error message stays.
\<close>

theorem cancelled_with_error:
  "map (\<lambda>j. (status j, error j)) (queue (run posix_basename fs1000 download_fails))
     = [(Failed, Some ''Access Denied'')]
   \<and> map (\<lambda>j. (status j, error j)) (queue (run posix_basename fs1000 cancel_failed))
     = [(Cancelled, Some ''Access Denied'')]"
  by code_simp

text \<open>
  C6. With a subscriber bound, a download completes at time 1300. The terminal
  emission is delivered, and afterwards \<open>lastEmitTime\<close> holds 1300 for the job's id:
  the entry deleted for a terminal status is set again by the next statement.
\<close>

theorem terminal_emission_keeps_timestamp:
  "lastEmitTime (run posix_basename fs1000 subscribed_download) ''transfer-1000-1'' = Some 1300
   \<and> map status (emitted (run posix_basename fs1000 subscribed_download))
       = [Pending, Active, Completed]"
  by code_simp

text \<open>
  C8. An upload is dispatched once and paused while active. The pause aborts the
  upload, whose rejection reaches the \<open>catch\<close> of \<open>executeUpload\<close>; the status there is
  \<open>paused\<close>, not \<open>cancelled\<close>, so the job becomes \<open>failed\<close>, with one executor ever
  started on it.
\<close>

theorem paused_job_fails:
  "map status (queue (run posix_basename fs1000 upload_paused)) = [Paused]
   \<and> map (\<lambda>j. (status j, error j)) (queue (run posix_basename fs1000 upload_paused_rejects))
       = [(Failed, Some ''Upload aborted.'')]
   \<and> length (executors (run posix_basename fs1000 upload_paused_rejects)) = 1
   \<and> activeCount (run posix_basename fs1000 upload_paused_rejects) = - 1"
  by code_simp

end
